theory Spec2Isabelle
  imports Complex_Main "HOL-Library.AList" "HOL-Library.Char_ord" "HOL-Library.List_Lexorder"
    "HOL-Library.Code_Target_Nat"
begin

section \<open>Values of the program\<close>

text \<open>
  The program of \<^verbatim>\<open>crypto_analysis.py\<close> works on what \<^verbatim>\<open>json.load\<close> and
  \<^verbatim>\<open>response.json()\<close> return: \<^verbatim>\<open>None\<close>, booleans, numbers, strings, lists and
  dictionaries with string keys. A dictionary is an association list read with
  \<^const>\<open>map_of\<close> and written with \<^const>\<open>AList.update\<close>, which keeps the insertion
  order as Python does; a parser returns distinct keys, and where a list repeats a key
  the first occurrence is the entry.

  Numbers are exact rationals. Python keeps \<^verbatim>\<open>int\<close> and \<^verbatim>\<open>float\<close> apart and rounds
  every floating-point operation; rounding, overflow, infinities and NaN are outside
  this model. Of what \<^verbatim>\<open>print\<close> writes, only the message that a batch is given up is
  kept, in the trace of the run. Exceptions are those that \<^verbatim>\<open>except Exception\<close> catches;
  an interrupt or a cancellation of the task is outside the model.
\<close>

datatype json =
    JNull
  | JBool bool
  | JNum rat
  | JStr string
  | JArr "json list"
  | JObj "(string \<times> json) list"

datatype py_error =
    TypeError
  | KeyError
  | AttributeError
  | IndexError
  | ValueError
  | OSError
  | JSONDecodeError
  | ZeroDivisionError

text \<open>Truth value of an object in a condition (\<^verbatim>\<open>if x\<close>, \<^verbatim>\<open>not x\<close>, \<^verbatim>\<open>x and y\<close>).\<close>

fun truthy :: "json \<Rightarrow> bool" where
  "truthy JNull = False"
| "truthy (JBool b) = b"
| "truthy (JNum r) = (r \<noteq> 0)"
| "truthy (JStr s) = (s \<noteq> [])"
| "truthy (JArr xs) = (xs \<noteq> [])"
| "truthy (JObj m) = (m \<noteq> [])"

text \<open>\<^verbatim>\<open>p in s\<close> on two strings: \<^verbatim>\<open>p\<close> occurs in \<^verbatim>\<open>s\<close> as a substring.\<close>

fun starts_with :: "string \<Rightarrow> string \<Rightarrow> bool" where
  "starts_with [] s = True"
| "starts_with (c # p) [] = False"
| "starts_with (c # p) (d # s) = (c = d \<and> starts_with p s)"

fun str_contains :: "string \<Rightarrow> string \<Rightarrow> bool" where
  "str_contains p [] = (p = [])"
| "str_contains p (c # s) = (starts_with p (c # s) \<or> str_contains p s)"

text \<open>\<^verbatim>\<open>k in x\<close> for a string \<^verbatim>\<open>k\<close>: a key of a dictionary, an element of a list, a
  substring of a string; any other object is not iterable.\<close>

fun py_contains :: "string \<Rightarrow> json \<Rightarrow> py_error + bool" where
  "py_contains k (JObj m) = Inr (map_of m k \<noteq> None)"
| "py_contains k (JArr xs) = Inr (JStr k \<in> set xs)"
| "py_contains k (JStr s) = Inr (str_contains k s)"
| "py_contains k JNull = Inl TypeError"
| "py_contains k (JBool b) = Inl TypeError"
| "py_contains k (JNum r) = Inl TypeError"

text \<open>\<^verbatim>\<open>x[k]\<close> for a string \<^verbatim>\<open>k\<close>: only a dictionary can be indexed by a string.\<close>

fun py_getitem :: "json \<Rightarrow> string \<Rightarrow> py_error + json" where
  "py_getitem (JObj m) k = (case map_of m k of None \<Rightarrow> Inl KeyError | Some v \<Rightarrow> Inr v)"
| "py_getitem x k = Inl TypeError"

text \<open>\<^verbatim>\<open>x[k] = v\<close> for a string \<^verbatim>\<open>k\<close>; the result is the object after the assignment.\<close>

fun py_setitem :: "json \<Rightarrow> string \<Rightarrow> json \<Rightarrow> py_error + json" where
  "py_setitem (JObj m) k v = Inr (JObj (AList.update k v m))"
| "py_setitem x k v = Inl TypeError"

text \<open>\<^verbatim>\<open>x.get(k, d)\<close>: only a dictionary has the method.\<close>

definition field_or :: "(string \<times> json) list \<Rightarrow> string \<Rightarrow> json \<Rightarrow> json" where
  "field_or m k d = (case map_of m k of None \<Rightarrow> d | Some v \<Rightarrow> v)"

fun py_get :: "json \<Rightarrow> string \<Rightarrow> json \<Rightarrow> py_error + json" where
  "py_get (JObj m) k d = Inr (field_or m k d)"
| "py_get x k d = Inl AttributeError"

text \<open>\<^verbatim>\<open>x[0]\<close> and \<^verbatim>\<open>len(x)\<close>.\<close>

fun py_first :: "json \<Rightarrow> py_error + json" where
  "py_first (JArr []) = Inl IndexError"
| "py_first (JArr (x # xs)) = Inr x"
| "py_first (JStr []) = Inl IndexError"
| "py_first (JStr (c # s)) = Inr (JStr [c])"
| "py_first (JObj m) = Inl KeyError"
| "py_first x = Inl TypeError"

fun py_len :: "json \<Rightarrow> py_error + nat" where
  "py_len (JArr xs) = Inr (length xs)"
| "py_len (JStr s) = Inr (length s)"
| "py_len (JObj m) = Inr (length m)"
| "py_len x = Inl TypeError"

text \<open>A number in arithmetic and in a comparison with a number: \<^verbatim>\<open>bool\<close> is a subclass
  of \<^verbatim>\<open>int\<close>; every other object raises \<^verbatim>\<open>TypeError\<close>.\<close>

fun py_num :: "json \<Rightarrow> py_error + rat" where
  "py_num (JNum r) = Inr r"
| "py_num (JBool b) = Inr (if b then 1 else 0)"
| "py_num x = Inl TypeError"

definition py_truediv :: "rat \<Rightarrow> rat \<Rightarrow> py_error + rat" where
  "py_truediv a b = (if b = 0 then Inl ZeroDivisionError else Inr (a / b))"

section \<open>Time\<close>

text \<open>
  An instant is a number of microseconds, the resolution of \<^verbatim>\<open>datetime\<close>.
  \<^verbatim>\<open>datetime.isoformat\<close> and \<^verbatim>\<open>datetime.fromisoformat\<close> are stood in for by the
  decimal numeral of the instant: what the cache needs of them is that a string that is
  not a timestamp is rejected and that a written timestamp is read back.
\<close>

definition digit_char :: "nat \<Rightarrow> char" where
  "digit_char d = char_of (48 + d)"

definition is_digit :: "char \<Rightarrow> bool" where
  "is_digit c = (48 \<le> (of_char c :: nat) \<and> (of_char c :: nat) \<le> 57)"

definition digit_val :: "char \<Rightarrow> nat" where
  "digit_val c = of_char c - 48"

function nat_digits :: "nat \<Rightarrow> string" where
  "nat_digits n = (if n < 10 then [digit_char n] else nat_digits (n div 10) @ [digit_char (n mod 10)])"
  by pat_completeness auto
termination
  by (relation "measure (\<lambda>n. n)") auto

declare nat_digits.simps [simp del]

definition isoformat :: "nat \<Rightarrow> string" where
  "isoformat t = nat_digits t"

definition digits_val :: "string \<Rightarrow> nat" where
  "digits_val s = foldl (\<lambda>acc c. acc * 10 + digit_val c) 0 s"

fun fromisoformat :: "json \<Rightarrow> py_error + nat" where
  "fromisoformat (JStr s) =
     (if s \<noteq> [] \<and> list_all is_digit s then Inr (digits_val s) else Inl ValueError)"
| "fromisoformat x = Inl TypeError"

definition seconds :: "nat \<Rightarrow> nat" where
  "seconds n = n * 1000000"

text \<open>\<^verbatim>\<open>(a - b).total_seconds()\<close> for two instants.\<close>

definition total_seconds :: "nat \<Rightarrow> nat \<Rightarrow> rat" where
  "total_seconds a b = of_int (int a - int b) / 1000000"

section \<open>The cache\<close>

definition CACHE_EXPIRY :: rat where
  "CACHE_EXPIRY = 3600"

definition BATCH_SIZE :: nat where
  "BATCH_SIZE = 100"

text \<open>What \<^verbatim>\<open>crypto_cache.json\<close> is when the cache is constructed: no file, a file that
  \<^verbatim>\<open>open\<close> or \<^verbatim>\<open>json.load\<close> raises on, or a file holding a JSON value.\<close>

datatype document = Absent | Unreadable py_error | Parsed json

definition empty_cache :: json where
  "empty_cache = JObj [(''quotes'', JObj []), (''timestamp'', JObj [])]"

text \<open>The \<^verbatim>\<open>try\<close> block of \<^verbatim>\<open>_load_cache\<close>: \<open>Inl\<close> when it raises, \<open>Inr None\<close> when the
  file does not exist and the block ends without \<^verbatim>\<open>return\<close>.\<close>

definition load_cache_try :: "document \<Rightarrow> py_error + json option" where
  "load_cache_try doc =
     (case doc of
        Absent \<Rightarrow> Inr None
      | Unreadable e \<Rightarrow> Inl e
      | Parsed cache_data \<Rightarrow>
          (case py_contains ''quotes'' cache_data of
             Inl e \<Rightarrow> Inl e
           | Inr has_quotes \<Rightarrow>
          (case (if has_quotes then Inr cache_data
                 else py_setitem cache_data ''quotes'' (JObj [])) of
             Inl e \<Rightarrow> Inl e
           | Inr cache_data1 \<Rightarrow>
          (case py_contains ''timestamp'' cache_data1 of
             Inl e \<Rightarrow> Inl e
           | Inr has_timestamp \<Rightarrow>
          (case (if has_timestamp then Inr cache_data1
                 else py_setitem cache_data1 ''timestamp'' (JObj [])) of
             Inl e \<Rightarrow> Inl e
           | Inr cache_data2 \<Rightarrow> Inr (Some cache_data2))))))"

text \<open>\<^verbatim>\<open>CryptoCache._load_cache\<close>; the result is \<^verbatim>\<open>self.cache\<close>. \<open>Inl\<close> would be an
  exception leaving the method.\<close>

definition load_cache :: "document \<Rightarrow> py_error + json" where
  "load_cache doc =
     (case load_cache_try doc of
        Inr (Some cache_data) \<Rightarrow> Inr cache_data
      | Inr None \<Rightarrow> Inr empty_cache
      | Inl e \<Rightarrow> Inr empty_cache)"

text \<open>\<^verbatim>\<open>CryptoCache.is_valid\<close>: the \<^verbatim>\<open>try\<close> block, then the method. The argument
  \<^verbatim>\<open>data_type\<close> is not used by the source.\<close>

definition is_valid_try :: "nat \<Rightarrow> string \<Rightarrow> string \<Rightarrow> json \<Rightarrow> py_error + bool" where
  "is_valid_try now key data_type cache =
     (case py_get cache ''timestamp'' (JObj []) of
        Inl e \<Rightarrow> Inl e
      | Inr stamps \<Rightarrow>
     (case py_get stamps key JNull of
        Inl e \<Rightarrow> Inl e
      | Inr timestamp \<Rightarrow>
          if \<not> truthy timestamp then Inr False
          else (case fromisoformat timestamp of
                  Inl e \<Rightarrow> Inl e
                | Inr t \<Rightarrow> Inr (total_seconds now t < CACHE_EXPIRY))))"

definition is_valid :: "nat \<Rightarrow> string \<Rightarrow> string \<Rightarrow> json \<Rightarrow> bool" where
  "is_valid now key data_type cache =
     (case is_valid_try now key data_type cache of Inr b \<Rightarrow> b | Inl e \<Rightarrow> False)"

text \<open>\<^verbatim>\<open>CryptoCache.get\<close>; \<^const>\<open>JNull\<close> is \<^verbatim>\<open>None\<close>.\<close>

definition cache_get :: "nat \<Rightarrow> string \<Rightarrow> string \<Rightarrow> json \<Rightarrow> json" where
  "cache_get now key data_type cache =
     (if is_valid now key data_type cache then
        (case py_getitem cache data_type of
           Inl e \<Rightarrow> JNull
         | Inr entries \<Rightarrow> (case py_get entries key JNull of Inl e \<Rightarrow> JNull | Inr v \<Rightarrow> v))
      else JNull)"

text \<open>\<^verbatim>\<open>self.cache[k][key] = v\<close> changes the dictionary \<^verbatim>\<open>self.cache[k]\<close> in place;
  \<open>store\<close> puts the changed dictionary back under \<open>k\<close>.\<close>

fun store :: "json \<Rightarrow> string \<Rightarrow> json \<Rightarrow> json" where
  "store (JObj m) k x = JObj (AList.update k x m)"
| "store c k x = c"

text \<open>\<^verbatim>\<open>CryptoCache.set\<close>: the result is \<^verbatim>\<open>self.cache\<close> after the call. An exception
  ends the \<^verbatim>\<open>try\<close> block where it is raised and keeps the assignments made before it.
  \<^verbatim>\<open>save_cache\<close> writes the file, which the run does not read again, and catches its own
  exceptions: it does not change the modelled state. First the two statements that stamp
  the key, then the method, whose first two statements store the value.\<close>

definition stamp_key :: "nat \<Rightarrow> string \<Rightarrow> json \<Rightarrow> json" where
  "stamp_key now key cache =
     (case py_contains ''timestamp'' cache of
        Inl e \<Rightarrow> cache
      | Inr has_timestamp \<Rightarrow>
     (case (if has_timestamp then Inr cache else py_setitem cache ''timestamp'' (JObj [])) of
        Inl e \<Rightarrow> cache
      | Inr c1 \<Rightarrow>
     (case py_getitem c1 ''timestamp'' of
        Inl e \<Rightarrow> c1
      | Inr stamps \<Rightarrow>
     (case py_setitem stamps key (JStr (isoformat now)) of
        Inl e \<Rightarrow> c1
      | Inr stamps' \<Rightarrow> store c1 ''timestamp'' stamps'))))"

definition cache_set :: "nat \<Rightarrow> string \<Rightarrow> string \<Rightarrow> json \<Rightarrow> json \<Rightarrow> json" where
  "cache_set now key data_type v cache =
     (case py_contains data_type cache of
        Inl e \<Rightarrow> cache
      | Inr has_type \<Rightarrow>
     (case (if has_type then Inr cache else py_setitem cache data_type (JObj [])) of
        Inl e \<Rightarrow> cache
      | Inr c1 \<Rightarrow>
     (case py_getitem c1 data_type of
        Inl e \<Rightarrow> c1
      | Inr entries \<Rightarrow>
     (case py_setitem entries key v of
        Inl e \<Rightarrow> c1
      | Inr entries' \<Rightarrow> stamp_key now key (store c1 data_type entries')))))"

text \<open>The persistence format has \<^verbatim>\<open>timestamp\<close> and every data type as a dictionary inside
  the cache dictionary. \<open>slot_ok cache k\<close>: the cache is a dictionary in which \<open>k\<close> is
  absent or a dictionary.\<close>

fun is_dict :: "json \<Rightarrow> bool" where
  "is_dict (JObj m) = True"
| "is_dict x = False"

fun slot_ok :: "json \<Rightarrow> string \<Rightarrow> bool" where
  "slot_ok (JObj m) k = (case map_of m k of None \<Rightarrow> True | Some x \<Rightarrow> is_dict x)"
| "slot_ok c k = False"

section \<open>Scoring one symbol\<close>

text \<open>Sequencing of steps that may raise: the first exception ends the sequence.\<close>

definition py_bind :: "py_error + 'a \<Rightarrow> ('a \<Rightarrow> py_error + 'b) \<Rightarrow> py_error + 'b" where
  "py_bind x f = (case x of Inl e \<Rightarrow> Inl e | Inr a \<Rightarrow> f a)"

text \<open>The expression assigned to \<^verbatim>\<open>momentum_score\<close>:
  \<^verbatim>\<open>0.5 * percent_change_24h + 0.3 * percent_change_7d
     + 0.2 * (volume_24h / market_cap * 100 if market_cap > 0 else 0)\<close>.\<close>

definition momentum_score :: "json \<Rightarrow> json \<Rightarrow> json \<Rightarrow> json \<Rightarrow> py_error + rat" where
  "momentum_score percent_change_24h percent_change_7d volume_24h market_cap =
     py_bind (py_num percent_change_24h) (\<lambda>change_24h.
     py_bind (py_num percent_change_7d) (\<lambda>change_7d.
     py_bind (py_num market_cap) (\<lambda>cap.
     py_bind (if cap > 0
              then py_bind (py_num volume_24h) (\<lambda>volume.
                   py_bind (py_truediv volume cap) (\<lambda>ratio. Inr (ratio * 100)))
              else Inr 0) (\<lambda>volume_ratio.
     Inr (1 / 2 * change_24h + 3 / 10 * change_7d + 1 / 5 * volume_ratio)))))"

text \<open>The condition \<^verbatim>\<open>price and price > 0\<close>.\<close>

definition price_ok :: "json \<Rightarrow> py_error + bool" where
  "price_ok price =
     (if \<not> truthy price then Inr False else py_bind (py_num price) (\<lambda>p. Inr (p > 0)))"

text \<open>The condition \<^verbatim>\<open>token_data and len(token_data) > 0\<close>.\<close>

definition has_entries :: "json \<Rightarrow> py_error + bool" where
  "has_entries token_data =
     (if \<not> truthy token_data then Inr False else py_bind (py_len token_data) (\<lambda>n. Inr (n > 0)))"

text \<open>The body of the \<^verbatim>\<open>try\<close> block for one symbol, in two parts. First the lookup of
  \<^verbatim>\<open>token_data[0].get('quote', {}).get('USD', {})\<close>: \<open>Inr None\<close> is the \<^verbatim>\<open>else\<close> branch
  "No data found", \<open>Inl\<close> an exception.\<close>

definition usd_quote :: "json \<Rightarrow> string \<Rightarrow> py_error + json option" where
  "usd_quote quote_data symbol =
     py_bind (py_getitem quote_data ''data'') (\<lambda>data.
     py_bind (py_get data symbol (JArr [])) (\<lambda>token_data.
     py_bind (has_entries token_data) (\<lambda>present.
     if \<not> present then Inr None
     else
     py_bind (py_first token_data) (\<lambda>first.
     py_bind (py_get first ''quote'' (JObj [])) (\<lambda>quotes.
     py_bind (py_get quotes ''USD'' (JObj [])) (\<lambda>quote. Inr (Some quote)))))))"

text \<open>Then the fields of the quote, up to the assignment to \<^verbatim>\<open>results[symbol]\<close>:
  \<open>Inr (Some (momentum_score, price))\<close> is the assigned pair, \<open>Inr None\<close> the \<^verbatim>\<open>else\<close>
  branch "Invalid price", \<open>Inl\<close> an exception. The \<^verbatim>\<open>print\<close> after the assignment is
  taken not to raise.\<close>

definition score_quote :: "json \<Rightarrow> py_error + (rat \<times> json) option" where
  "score_quote quote =
     py_bind (py_get quote ''price'' JNull) (\<lambda>price.
     py_bind (py_get quote ''percent_change_24h'' (JNum 0)) (\<lambda>percent_change_24h.
     py_bind (py_get quote ''percent_change_7d'' (JNum 0)) (\<lambda>percent_change_7d.
     py_bind (py_get quote ''volume_24h'' (JNum 0)) (\<lambda>volume_24h.
     py_bind (py_get quote ''market_cap'' (JNum 0)) (\<lambda>market_cap.
     py_bind (price_ok price) (\<lambda>valid.
     if \<not> valid then Inr None
     else
     py_bind (momentum_score percent_change_24h percent_change_7d volume_24h market_cap)
       (\<lambda>score. Inr (Some (score, price)))))))))"

definition extract_quote :: "json \<Rightarrow> string \<Rightarrow> py_error + (rat \<times> json) option" where
  "extract_quote quote_data symbol =
     py_bind (usd_quote quote_data symbol) (\<lambda>found.
     case found of None \<Rightarrow> Inr None | Some quote \<Rightarrow> score_quote quote)"

section \<open>The run\<close>

text \<open>What the run meets outside the program: the environment variable, the cache file,
  the clock, and the answers of the remote service in the order of the requests. A
  \<open>Reply\<close> has the time it took, the HTTP status and the body as \<^verbatim>\<open>response.json()\<close>
  returns it (\<open>None\<close> when that raises); \<open>NoReply\<close> is a request that raises. When the
  list is used up, a request raises.\<close>

datatype reply = Reply nat nat "json option" | NoReply nat

text \<open>The trace of a run: a call of \<^verbatim>\<open>get_batch_quotes\<close>, an HTTP request, the three
  places that sleep (the cool-down after status 429, the back-off between attempts, the
  delay between batches), each with its duration, and the message
  "Failed to get quotes for batch" with the batch it is about.\<close>

datatype event =
    Fetch "string list"
  | Request "string list"
  | Cooldown nat
  | Backoff nat
  | Pacing nat
  | GaveUp "string list"

fun fetcher_event :: "event \<Rightarrow> bool" where
  "fetcher_event (Request symbols) = True"
| "fetcher_event (Cooldown d) = True"
| "fetcher_event e = False"

fun is_fetch :: "event \<Rightarrow> bool" where
  "is_fetch (Fetch symbols) = True"
| "is_fetch e = False"

record world =
  api_key_env :: "string option"
  cache_file :: document
  clock :: nat
  net :: "reply list"
  log :: "event list"

text \<open>The world together with the local variables of \<^verbatim>\<open>process_all_tickers\<close>.\<close>

record state = world +
  cache :: json
  results :: "string \<rightharpoonup> rat \<times> json"
  failed_tokens :: "string list"
  api_calls :: nat

definition init_state :: "world \<Rightarrow> json \<Rightarrow> state" where
  "init_state w c =
     \<lparr>api_key_env = api_key_env w, cache_file = cache_file w, clock = clock w, net = net w,
      log = log w, cache = c, results = Map.empty, failed_tokens = [], api_calls = 0\<rparr>"

definition world_of :: "state \<Rightarrow> world" where
  "world_of st =
     \<lparr>api_key_env = api_key_env st, cache_file = cache_file st, clock = clock st,
      net = net st, log = log st\<rparr>"

text \<open>\<^verbatim>\<open>await asyncio.sleep(d)\<close> at one of the three places.\<close>

definition sleep :: "(nat \<Rightarrow> event) \<Rightarrow> nat \<Rightarrow> state \<Rightarrow> state" where
  "sleep place d st = st\<lparr>clock := clock st + d, log := log st @ [place d]\<rparr>"

definition elapse :: "nat \<Rightarrow> state \<Rightarrow> state" where
  "elapse d st = st\<lparr>clock := clock st + d\<rparr>"

subsection \<open>\<^verbatim>\<open>get_batch_quotes\<close>\<close>

fun join :: "string \<Rightarrow> string list \<Rightarrow> string" where
  "join sep [] = []"
| "join sep [x] = x"
| "join sep (x # y # zs) = x @ sep @ join sep (y # zs)"

text \<open>\<^verbatim>\<open>x == 0\<close>: \<^verbatim>\<open>False == 0\<close> holds in Python.\<close>

fun py_is_zero :: "json \<Rightarrow> bool" where
  "py_is_zero (JNum r) = (r = 0)"
| "py_is_zero (JBool b) = (\<not> b)"
| "py_is_zero x = False"

text \<open>The condition
  \<^verbatim>\<open>response.status == 200 and data.get('status', {}).get('error_code') == 0\<close>.\<close>

definition accepted :: "nat \<Rightarrow> json \<Rightarrow> py_error + bool" where
  "accepted status data =
     (if status = 200
      then py_bind (py_get data ''status'' (JObj [])) (\<lambda>envelope.
           py_bind (py_get envelope ''error_code'' JNull) (\<lambda>code. Inr (py_is_zero code)))
      else Inr False)"

text \<open>The \<^verbatim>\<open>try\<close> block of \<^verbatim>\<open>get_batch_quotes\<close> with its \<^verbatim>\<open>except\<close>: every exception and
  the \<^verbatim>\<open>else\<close> branch (which can only raise or return \<^verbatim>\<open>None\<close>) give \<^verbatim>\<open>None\<close>.\<close>

definition request_quotes :: "string \<Rightarrow> string list \<Rightarrow> state \<Rightarrow> json \<times> state" where
  "request_quotes cache_key symbols st =
     (case net st of
        [] \<Rightarrow> (JNull, st\<lparr>log := log st @ [Request symbols]\<rparr>)
      | NoReply d # rest \<Rightarrow>
          (JNull, elapse d (st\<lparr>net := rest, log := log st @ [Request symbols]\<rparr>))
      | Reply d status body # rest \<Rightarrow>
          (let st1 = elapse d (st\<lparr>net := rest, log := log st @ [Request symbols]\<rparr>)
           in if status = 429 then (JNull, sleep Cooldown (seconds 10) st1)
              else (case body of
                      None \<Rightarrow> (JNull, st1)
                    | Some data \<Rightarrow>
                        (case accepted status data of
                           Inl e \<Rightarrow> (JNull, st1)
                         | Inr ok \<Rightarrow>
                             if ok
                             then (data, st1\<lparr>cache :=
                                     cache_set (clock st1) cache_key ''quotes'' data (cache st1)\<rparr>)
                             else (JNull, st1)))))"

definition get_batch_quotes :: "string list \<Rightarrow> string \<Rightarrow> state \<Rightarrow> json \<times> state" where
  "get_batch_quotes symbols api_key st =
     (let cache_key = join '','' (sort symbols);
          cached_data = cache_get (clock st) cache_key ''quotes'' (cache st)
      in if truthy cached_data then (cached_data, st)
         else request_quotes cache_key symbols st)"

subsection \<open>\<^verbatim>\<open>process_all_tickers\<close>\<close>

definition upper_char :: "char \<Rightarrow> char" where
  "upper_char c =
     (if 97 \<le> (of_char c :: nat) \<and> (of_char c :: nat) \<le> 122 then char_of ((of_char c :: nat) - 32)
      else c)"

text \<open>\<^verbatim>\<open>t.upper()\<close> on the bytes of an ASCII ticker.\<close>

definition upper :: "string \<Rightarrow> string" where
  "upper t = map upper_char t"

text \<open>The slices \<^verbatim>\<open>tickers[i:i + BATCH_SIZE]\<close> for \<^verbatim>\<open>i in range(0, len(tickers), BATCH_SIZE)\<close>.\<close>

definition batches :: "string list \<Rightarrow> string list list" where
  "batches tickers =
     map (\<lambda>j. take BATCH_SIZE (drop (j * BATCH_SIZE) tickers))
       [0 ..< (length tickers + BATCH_SIZE - 1) div BATCH_SIZE]"

text \<open>The condition \<^verbatim>\<open>quote_data and 'data' in quote_data\<close>.\<close>

definition usable :: "json \<Rightarrow> py_error + bool" where
  "usable quote_data = (if truthy quote_data then py_contains ''data'' quote_data else Inr False)"

text \<open>One pass of \<^verbatim>\<open>for retry in range(3)\<close> up to the test: the call and the counter.\<close>

definition attempt :: "string list \<Rightarrow> string \<Rightarrow> state \<Rightarrow> json \<times> state" where
  "attempt batch api_key st =
     (case get_batch_quotes batch api_key (st\<lparr>log := log st @ [Fetch batch]\<rparr>) of
        (quote_data, st1) \<Rightarrow> (quote_data, st1\<lparr>api_calls := api_calls st1 + 1\<rparr>))"

text \<open>The loop \<^verbatim>\<open>for retry in range(3)\<close> over the remaining values of \<^verbatim>\<open>retry\<close>; the
  result is \<^verbatim>\<open>quote_data\<close> when the loop is left, or the exception of the test.\<close>

fun retry_loop ::
  "nat list \<Rightarrow> string list \<Rightarrow> string \<Rightarrow> json \<Rightarrow> state \<Rightarrow> (py_error + json) \<times> state" where
  "retry_loop [] batch api_key quote_data st = (Inr quote_data, st)"
| "retry_loop (retry # rest) batch api_key quote_data st =
     (case attempt batch api_key st of
        (quote_data1, st1) \<Rightarrow>
          (case usable quote_data1 of
             Inl e \<Rightarrow> (Inl e, st1)
           | Inr ok \<Rightarrow>
               if ok then (Inr quote_data1, st1)
               else retry_loop rest batch api_key quote_data1
                      (if retry < 2 then sleep Backoff (seconds (2 ^ retry)) st1 else st1)))"

text \<open>The \<^verbatim>\<open>try\<close> statement for one symbol of the batch.\<close>

definition process_symbol :: "json \<Rightarrow> string \<Rightarrow> state \<Rightarrow> state" where
  "process_symbol quote_data symbol st =
     (case extract_quote quote_data symbol of
        Inr (Some entry) \<Rightarrow> st\<lparr>results := (results st)(symbol \<mapsto> entry)\<rparr>
      | Inr None \<Rightarrow> st\<lparr>failed_tokens := failed_tokens st @ [symbol]\<rparr>
      | Inl e \<Rightarrow> st\<lparr>failed_tokens := failed_tokens st @ [symbol]\<rparr>)"


text \<open>The body of the loop over the batches; \<open>Some e\<close> is an exception leaving it.\<close>

definition process_batch :: "string \<Rightarrow> string list \<Rightarrow> state \<Rightarrow> py_error option \<times> state" where
  "process_batch api_key batch st =
     (case retry_loop [0 ..< 3] batch api_key JNull st of
        (Inl e, st1) \<Rightarrow> (Some e, st1)
      | (Inr quote_data, st1) \<Rightarrow>
          (case usable quote_data of
             Inl e \<Rightarrow> (Some e, st1)
           | Inr ok \<Rightarrow>
               if \<not> ok then (None, st1\<lparr>log := log st1 @ [GaveUp batch]\<rparr>)
               else (None, sleep Pacing (seconds 1 div 10)
                             (fold (process_symbol quote_data) batch st1))))"

fun process_batches :: "string \<Rightarrow> string list list \<Rightarrow> state \<Rightarrow> py_error option \<times> state" where
  "process_batches api_key [] st = (None, st)"
| "process_batches api_key (batch # rest) st =
     (case process_batch api_key batch st of
        (Some e, st1) \<Rightarrow> (Some e, st1)
      | (None, st1) \<Rightarrow> process_batches api_key rest st1)"

text \<open>\<^verbatim>\<open>process_all_tickers\<close> up to its \<^verbatim>\<open>return\<close>: \<open>Inl\<close> is the exception it raises, with
  the world at that moment; \<open>Inr\<close> is the state when the loop is done.\<close>

definition run_tickers :: "string list \<Rightarrow> world \<Rightarrow> (py_error \<times> world) + state" where
  "run_tickers tickers w =
     (case api_key_env w of
        None \<Rightarrow> Inl (ValueError, w)
      | Some api_key \<Rightarrow>
          if api_key = [] then Inl (ValueError, w)
          else (case load_cache (cache_file w) of
                  Inl e \<Rightarrow> Inl (e, w)
                | Inr c \<Rightarrow>
                    (case process_batches api_key (batches (map upper tickers)) (init_state w c) of
                       (Some e, st) \<Rightarrow> Inl (e, world_of st)
                     | (None, st) \<Rightarrow> Inr st)))"

text \<open>The value \<^verbatim>\<open>(results, duration, api_calls)\<close> that \<^verbatim>\<open>process_all_tickers\<close> returns.\<close>

definition process_all_tickers ::
  "string list \<Rightarrow> world \<Rightarrow> py_error + ((string \<rightharpoonup> rat \<times> json) \<times> rat \<times> nat)" where
  "process_all_tickers tickers w =
     (case run_tickers tickers w of
        Inl (e, w1) \<Rightarrow> Inl e
      | Inr st \<Rightarrow> Inr (results st, total_seconds (clock st) (clock w), api_calls st))"

section \<open>Notions used in the statements\<close>



text \<open>The shape of the trace of one retry loop with \<open>n\<close> attempts, the events of the
  fetcher left out: a call for each attempt, the back-off of one second between the first
  two and of two seconds between the last two.\<close>

definition policy_shape :: "string list \<Rightarrow> nat \<Rightarrow> event list \<Rightarrow> bool" where
  "policy_shape batch n tr =
     (length (filter is_fetch tr) = n \<and>
      ((n = 1 \<and> filter (\<lambda>e. \<not> fetcher_event e) tr = [Fetch batch])
       \<or> (n = 2 \<and> filter (\<lambda>e. \<not> fetcher_event e) tr
              = [Fetch batch, Backoff (seconds 1), Fetch batch])
       \<or> (n = 3 \<and> filter (\<lambda>e. \<not> fetcher_event e) tr
              = [Fetch batch, Backoff (seconds 1), Fetch batch, Backoff (seconds 2),
                 Fetch batch])))"

text \<open>A cache in which every value stored under \<^verbatim>\<open>quotes\<close> is a dictionary or falsy, as
  are the values that the program itself stores.\<close>

fun clean_entries :: "json \<Rightarrow> bool" where
  "clean_entries (JObj es) = list_all (\<lambda>(k, v). is_dict v \<or> \<not> truthy v) es"
| "clean_entries x = True"

definition clean :: "json \<Rightarrow> bool" where
  "clean c = (case py_getitem c ''quotes'' of Inr x \<Rightarrow> clean_entries x | Inl e \<Rightarrow> True)"

section \<open>Inputs used in the examples\<close>


text \<open>A quote as the remote service sends it, with the five fields the program reads.\<close>

definition quote_record :: "rat \<Rightarrow> rat \<Rightarrow> rat \<Rightarrow> rat \<Rightarrow> rat \<Rightarrow> json" where
  "quote_record price change_24h change_7d volume cap =
     JObj [(''price'', JNum price), (''percent_change_24h'', JNum change_24h),
           (''percent_change_7d'', JNum change_7d), (''volume_24h'', JNum volume),
           (''market_cap'', JNum cap)]"

text \<open>An accepted response with the given entries under \<^verbatim>\<open>data\<close>, and the entry of a
  symbol with one quote in USD.\<close>

definition listing :: "(string \<times> json) list \<Rightarrow> json" where
  "listing entries = JObj [(''status'', JObj [(''error_code'', JNum 0)]), (''data'', JObj entries)]"

definition quoted :: "rat \<Rightarrow> json" where
  "quoted price =
     JArr [JObj [(''quote'', JObj [(''USD'', quote_record price 10 5 1000000 10000000)])]]"

text \<open>Worlds with the credential set and no cache file: a service that never answers;
  one that answers the first request; one that fails twice and then answers; one that
  fails three times and then answers.\<close>

definition service_down :: world where
  "service_down =
     \<lparr>api_key_env = Some ''key'', cache_file = Absent, clock = 0, net = [], log = []\<rparr>"

definition service_up :: world where
  "service_up =
     \<lparr>api_key_env = Some ''key'', cache_file = Absent, clock = 0,
      net = [Reply 0 200 (Some (listing [(''BTC'', quoted 100), (''ETH'', quoted 3)]))],
      log = []\<rparr>"

definition flaky :: world where
  "flaky =
     \<lparr>api_key_env = Some ''key'', cache_file = Absent, clock = 0,
      net = [NoReply 0, Reply 0 500 None, Reply 0 200 (Some (listing [(''BTC'', quoted 100)]))],
      log = []\<rparr>"

definition down_then_up :: world where
  "down_then_up =
     \<lparr>api_key_env = Some ''key'', cache_file = Absent, clock = 0,
      net = [NoReply 0, NoReply 0, NoReply 0,
             Reply 0 200 (Some (listing [(''BTC'', quoted 100)]))],
      log = []\<rparr>"


text \<open>A world with the credential set whose cache file holds, for the key \<^verbatim>\<open>BTC\<close>, the
  number 7 stamped one minute before the run.\<close>

definition poisoned_cache :: world where
  "poisoned_cache =
     \<lparr>api_key_env = Some ''key'',
      cache_file = Parsed (JObj [(''quotes'', JObj [(''BTC'', JNum 7)]),
                                 (''timestamp'', JObj [(''BTC'', JStr (isoformat 0))])]),
      clock = seconds 60, net = [], log = []\<rparr>"


section \<open>Timestamps are read back\<close>

lemma digit_char_props: "d < 10 \<Longrightarrow> is_digit (digit_char d) \<and> digit_val (digit_char d) = d"
  by (simp add: is_digit_def digit_val_def digit_char_def)

lemma nat_digits_all: "list_all is_digit (nat_digits n)"
proof (induction n rule: nat_digits.induct)
  case (1 n)
  show ?case
  proof (cases "n < 10")
    case True
    then show ?thesis by (subst nat_digits.simps) (simp add: digit_char_props)
  next
    case False
    then have "list_all is_digit (nat_digits (n div 10))" using 1 by simp
    moreover have "is_digit (digit_char (n mod 10))" by (simp add: digit_char_props)
    ultimately show ?thesis using False by (subst nat_digits.simps) simp
  qed
qed

lemma nat_digits_nonempty: "nat_digits n \<noteq> []"
  by (subst nat_digits.simps) simp

lemma digits_val_snoc: "digits_val (s @ [c]) = digits_val s * 10 + digit_val c"
  by (simp add: digits_val_def)

lemma digits_val_nat_digits: "digits_val (nat_digits n) = n"
proof (induction n rule: nat_digits.induct)
  case (1 n)
  show ?case
  proof (cases "n < 10")
    case True
    then show ?thesis by (subst nat_digits.simps) (simp add: digits_val_def digit_char_props)
  next
    case False
    then have "digits_val (nat_digits (n div 10)) = n div 10" using 1 by simp
    then show ?thesis using False
      by (subst nat_digits.simps) (simp add: digits_val_snoc digit_char_props)
  qed
qed

lemma fromisoformat_isoformat: "fromisoformat (JStr (isoformat t)) = Inr t"
  by (simp add: isoformat_def nat_digits_nonempty nat_digits_all digits_val_nat_digits)

lemma truthy_isoformat: "truthy (JStr (isoformat t))"
  by (simp add: isoformat_def nat_digits_nonempty)

section \<open>The cache: freshness and round trip\<close>

lemma is_valid_stamped:
  "map_of m ''timestamp'' = Some (JObj stamps) \<Longrightarrow>
   map_of stamps key = Some (JStr (isoformat t)) \<Longrightarrow>
   is_valid now key data_type (JObj m) = (total_seconds now t < CACHE_EXPIRY)"
  by (simp add: is_valid_def is_valid_try_def field_or_def truthy_isoformat
      fromisoformat_isoformat del: fromisoformat.simps truthy.simps)


lemma is_dictE: "is_dict x \<Longrightarrow> \<exists>m. x = JObj m"
  by (cases x) auto

text \<open>The cache after a \<^verbatim>\<open>set\<close> that meets dictionaries where it expects them: the key is
  stamped with the instant of the call, the value is stored, and the other data types are
  as before.\<close>

lemma cache_set_shape:
  assumes "slot_ok c data_type" "slot_ok c ''timestamp''"
  shows "\<exists>m stamps. cache_set now key data_type v c = JObj m
       \<and> map_of m ''timestamp'' = Some (JObj stamps)
       \<and> map_of stamps key = Some (JStr (isoformat now))
       \<and> (data_type \<noteq> ''timestamp'' \<longrightarrow>
            (\<exists>entries. map_of m data_type = Some (JObj entries) \<and> map_of entries key = Some v))
       \<and> (\<forall>t. t \<noteq> data_type \<and> t \<noteq> ''timestamp'' \<longrightarrow> py_getitem (JObj m) t = py_getitem c t)"
proof -
  obtain m0 where c: "c = JObj m0" using assms(1) by (cases c) auto
  show ?thesis
    using assms unfolding c cache_set_def stamp_key_def
    by (auto simp: update_conv' split: option.splits dest!: is_dictE)
qed

lemma cache_get_after_set:
  assumes "slot_ok c data_type" "slot_ok c ''timestamp''" "data_type \<noteq> ''timestamp''"
  shows "cache_get now' key data_type (cache_set now key data_type v c)
         = (if total_seconds now' now < CACHE_EXPIRY then v else JNull)"
proof -
  from cache_set_shape[OF assms(1,2), of now key v] assms(3)
  obtain m stamps entries where s: "cache_set now key data_type v c = JObj m"
    "map_of m ''timestamp'' = Some (JObj stamps)" "map_of stamps key = Some (JStr (isoformat now))"
    "map_of m data_type = Some (JObj entries)" "map_of entries key = Some v"
    by auto
  show ?thesis
    by (simp add: s cache_get_def field_or_def is_valid_stamped[OF s(2,3)])
qed

lemma cache_miss_when_empty: "cache_get now key data_type empty_cache = JNull"
  by (simp add: cache_get_def is_valid_def is_valid_try_def empty_cache_def field_or_def)

text \<open>
  Claim C6, as amended. The claim quantifies over every data type and says nothing of the
  state of the cache. The round trip holds when the data type is not \<^verbatim>\<open>timestamp\<close> and
  the cache is a dictionary in which the data type and \<^verbatim>\<open>timestamp\<close> are absent or
  dictionaries: a \<^verbatim>\<open>get\<close> after a \<^verbatim>\<open>set\<close> of the same key and data type returns the value
  when the time elapsed since the \<^verbatim>\<open>set\<close> is strictly less than 3600 seconds, and
  \<^verbatim>\<open>None\<close> once it is 3600 seconds or more; the miss is a value, not an exception.
\<close>

theorem cache_roundtrip:
  assumes "slot_ok c data_type" "slot_ok c ''timestamp''" "data_type \<noteq> ''timestamp''"
  shows "cache_get now' key data_type (cache_set now key data_type v c)
         = (if total_seconds now' now < CACHE_EXPIRY then v else JNull)"
  using assms by (rule cache_get_after_set)

theorem cache_roundtrip_witness:
  "slot_ok empty_cache ''quotes'' \<and> slot_ok empty_cache ''timestamp'' \<and> ''quotes'' \<noteq> ''timestamp''
   \<and> cache_get (seconds 3599) ''BTC'' ''quotes''
        (cache_set 0 ''BTC'' ''quotes'' (JNum 7) empty_cache) = JNum 7
   \<and> cache_get (seconds 3600) ''BTC'' ''quotes''
        (cache_set 0 ''BTC'' ''quotes'' (JNum 7) empty_cache) = JNull"
  using cache_roundtrip [of empty_cache "''quotes''" "seconds 3599" "''BTC''" 0 "JNum 7"]
        cache_roundtrip [of empty_cache "''quotes''" "seconds 3600" "''BTC''" 0 "JNum 7"]
  by (simp add: empty_cache_def total_seconds_def seconds_def CACHE_EXPIRY_def)

text \<open>
  Claim C6 as stated fails. With the data type \<^verbatim>\<open>timestamp\<close> the stored value is
  overwritten by the stamp of the key, so a \<^verbatim>\<open>get\<close> one microsecond after the \<^verbatim>\<open>set\<close>
  returns the stamp and not the value. And on the cache loaded from the document
  \<^verbatim>\<open>{"quotes": 5}\<close> the assignment into \<^verbatim>\<open>self.cache['quotes']\<close> raises inside \<^verbatim>\<open>set\<close>,
  nothing is stored, and the \<^verbatim>\<open>get\<close> returns \<^verbatim>\<open>None\<close>.
\<close>

theorem cache_roundtrip_counterexample:
  "total_seconds 1 0 < CACHE_EXPIRY
   \<and> cache_get 1 ''BTC'' ''timestamp''
        (cache_set 0 ''BTC'' ''timestamp'' (JNum 7) empty_cache) \<noteq> JNum 7
   \<and> load_cache (Parsed (JObj [(''quotes'', JNum 5)]))
      = Inr (JObj [(''quotes'', JNum 5), (''timestamp'', JObj [])])
   \<and> cache_get 1 ''BTC'' ''quotes''
        (cache_set 0 ''BTC'' ''quotes'' (JNum 7)
           (JObj [(''quotes'', JNum 5), (''timestamp'', JObj [])])) \<noteq> JNum 7"
  by code_simp

text \<open>
  Claim C9. Constructing the cache returns for every document: absent, unreadable, or
  holding any JSON value. Whenever the \<^verbatim>\<open>try\<close> block of the load does not return a cache
  (it raises, or the file does not exist), the cache is the empty one, with an empty
  \<^verbatim>\<open>quotes\<close> and an empty \<^verbatim>\<open>timestamp\<close> dictionary. On the empty cache no key is valid,
  every \<^verbatim>\<open>get\<close> is a miss, and a \<^verbatim>\<open>set\<close> followed by a \<^verbatim>\<open>get\<close> behaves as the round
  trip says.
\<close>

theorem load_cache_never_raises:
  "(\<exists>c. load_cache doc = Inr c)
   \<and> ((\<forall>c. load_cache_try doc \<noteq> Inr (Some c)) \<longrightarrow> load_cache doc = Inr empty_cache)
   \<and> empty_cache = JObj [(''quotes'', JObj []), (''timestamp'', JObj [])]
   \<and> is_valid now key data_type empty_cache = False
   \<and> cache_get now key data_type empty_cache = JNull
   \<and> (data_type \<noteq> ''timestamp'' \<longrightarrow>
        cache_get now' key data_type (cache_set now key data_type v empty_cache)
        = (if total_seconds now' now < CACHE_EXPIRY then v else JNull))"
proof -
  have a: "\<exists>c. load_cache doc = Inr c"
    by (simp add: load_cache_def split: sum.splits option.splits)
  have b: "(\<forall>c. load_cache_try doc \<noteq> Inr (Some c)) \<longrightarrow> load_cache doc = Inr empty_cache"
    by (simp add: load_cache_def split: sum.splits option.splits)
  have c: "is_valid now key data_type empty_cache = False"
    by (simp add: is_valid_def is_valid_try_def empty_cache_def field_or_def)
  have d: "cache_get now key data_type empty_cache = JNull"
    by (rule cache_miss_when_empty)
  have e: "data_type \<noteq> ''timestamp'' \<longrightarrow>
        cache_get now' key data_type (cache_set now key data_type v empty_cache)
        = (if total_seconds now' now < CACHE_EXPIRY then v else JNull)"
    using cache_get_after_set [of empty_cache data_type now' key now v]
    by (simp add: empty_cache_def)
  show ?thesis using a b c d e by (simp add: empty_cache_def)
qed

theorem load_cache_never_raises_witness:
  "(\<forall>c. load_cache_try (Parsed (JArr [JNum 1])) \<noteq> Inr (Some c))
   \<and> load_cache (Parsed (JArr [JNum 1])) = Inr empty_cache
   \<and> load_cache (Unreadable JSONDecodeError) = Inr empty_cache
   \<and> load_cache Absent = Inr empty_cache
   \<and> ''quotes'' \<noteq> ''timestamp''
   \<and> cache_get 5 ''BTC'' ''quotes'' (cache_set 0 ''BTC'' ''quotes'' (JNum 7) empty_cache) = JNum 7"
proof -
  have a: "\<forall>c. load_cache_try (Parsed (JArr [JNum 1])) \<noteq> Inr (Some c)"
    by (simp add: load_cache_try_def)
  have b: "\<forall>c. load_cache_try (Unreadable JSONDecodeError) \<noteq> Inr (Some c)"
    by (simp add: load_cache_try_def)
  have c: "\<forall>c. load_cache_try Absent \<noteq> Inr (Some c)"
    by (simp add: load_cache_try_def)
  have d: "total_seconds 5 0 < CACHE_EXPIRY" by (simp add: total_seconds_def CACHE_EXPIRY_def)
  show ?thesis
    using a b c d
      load_cache_never_raises [of "Parsed (JArr [JNum 1])" 0 "''BTC''" "''quotes''" 5 "JNum 7"]
      load_cache_never_raises [of "Unreadable JSONDecodeError" 0 "''BTC''" "''quotes''" 5 "JNum 7"]
      load_cache_never_raises [of Absent 0 "''BTC''" "''quotes''" 5 "JNum 7"]
    by simp
qed



section \<open>The score\<close>

lemma py_bind_simps [simp]: "py_bind (Inl e) f = Inl e" "py_bind (Inr a) f = f a"
  by (simp_all add: py_bind_def)



section \<open>The symbols of one batch\<close>



lemma process_symbol_world:
  "log (process_symbol q s st) = log st" "cache (process_symbol q s st) = cache st"
  "clock (process_symbol q s st) = clock st" "net (process_symbol q s st) = net st"
  "api_calls (process_symbol q s st) = api_calls st"
  by (simp_all add: process_symbol_def split: sum.splits option.splits)



lemma fold_process_world:
  "log (fold (process_symbol q) batch st) = log st"
  "cache (fold (process_symbol q) batch st) = cache st"
  "clock (fold (process_symbol q) batch st) = clock st"
  "net (fold (process_symbol q) batch st) = net st"
  "api_calls (fold (process_symbol q) batch st) = api_calls st"
  by (induction batch arbitrary: st) (simp_all add: process_symbol_world)







section \<open>The fetcher and the loops leave the collections alone\<close>

lemma request_quotes_log:
  "\<exists>tr. log (snd (request_quotes k b st)) = log st @ tr \<and> list_all fetcher_event tr"
  by (auto simp: request_quotes_def sleep_def elapse_def Let_def
      split: list.splits reply.splits option.splits sum.splits)

lemma request_quotes_frame:
  "results (snd (request_quotes k b st)) = results st"
  "failed_tokens (snd (request_quotes k b st)) = failed_tokens st"
  "api_calls (snd (request_quotes k b st)) = api_calls st"
  by (auto simp: request_quotes_def sleep_def elapse_def Let_def
      split: list.splits reply.splits option.splits sum.splits)

lemma get_batch_quotes_log:
  "\<exists>tr. log (snd (get_batch_quotes b key st)) = log st @ tr \<and> list_all fetcher_event tr"
  using request_quotes_log by (simp add: get_batch_quotes_def Let_def)

lemma get_batch_quotes_frame:
  "results (snd (get_batch_quotes b key st)) = results st"
  "failed_tokens (snd (get_batch_quotes b key st)) = failed_tokens st"
  "api_calls (snd (get_batch_quotes b key st)) = api_calls st"
  by (simp_all add: get_batch_quotes_def Let_def request_quotes_frame)

lemma attempt_log:
  "\<exists>tr. log (snd (attempt b key st)) = log st @ Fetch b # tr \<and> list_all fetcher_event tr"
proof -
  obtain tr where "log (snd (get_batch_quotes b key (st\<lparr>log := log st @ [Fetch b]\<rparr>)))
      = log (st\<lparr>log := log st @ [Fetch b]\<rparr>) @ tr" "list_all fetcher_event tr"
    using get_batch_quotes_log by blast
  then show ?thesis
    by (auto simp: attempt_def split: prod.splits)
qed

lemma attempt_frame:
  "results (snd (attempt b key st)) = results st"
  "failed_tokens (snd (attempt b key st)) = failed_tokens st"
  "api_calls (snd (attempt b key st)) = api_calls st + 1"
  using get_batch_quotes_frame[of b key "st\<lparr>log := log st @ [Fetch b]\<rparr>"]
  by (auto simp: attempt_def split: prod.splits)

lemma sleep_simps [simp]:
  "log (sleep place d st) = log st @ [place d]" "results (sleep place d st) = results st"
  "failed_tokens (sleep place d st) = failed_tokens st" "api_calls (sleep place d st) = api_calls st"
  by (simp_all add: sleep_def)

lemma retry_loop_unrolled:
  "retry_loop [0 ..< 3] batch key q0 st =
     (case attempt batch key st of (q1, s1) \<Rightarrow>
       (case usable q1 of Inl e \<Rightarrow> (Inl e, s1) | Inr ok1 \<Rightarrow>
          if ok1 then (Inr q1, s1) else
     (case attempt batch key (sleep Backoff (seconds 1) s1) of (q2, s2) \<Rightarrow>
       (case usable q2 of Inl e \<Rightarrow> (Inl e, s2) | Inr ok2 \<Rightarrow>
          if ok2 then (Inr q2, s2) else
     (case attempt batch key (sleep Backoff (seconds 2) s2) of (q3, s3) \<Rightarrow>
       (case usable q3 of Inl e \<Rightarrow> (Inl e, s3) | Inr ok3 \<Rightarrow> (Inr q3, s3)))))))"
proof -
  have u: "[0 ..< 3] = [0, 1, 2]" by (simp add: upt_rec)
  show ?thesis
    unfolding u by (simp split: prod.splits sum.splits)
qed

lemma fetcher_filter:
  "list_all fetcher_event tr \<Longrightarrow> filter (\<lambda>e. \<not> fetcher_event e) tr = [] \<and> filter is_fetch tr = []"
  by (induction tr) (auto elim: fetcher_event.elims)

lemma attempt_trace:
  "\<exists>tr. log (snd (attempt b key st)) = log st @ tr
        \<and> filter (\<lambda>e. \<not> fetcher_event e) tr = [Fetch b] \<and> length (filter is_fetch tr) = 1"
proof -
  obtain tr where "log (snd (attempt b key st)) = log st @ Fetch b # tr" "list_all fetcher_event tr"
    using attempt_log by blast
  then show ?thesis
    using fetcher_filter[of tr] by (intro exI[of _ "Fetch b # tr"]) simp
qed


lemma retry_loop_trace:
  "\<exists>tr n. log (snd (retry_loop [0 ..< 3] batch key q0 st)) = log st @ tr
     \<and> api_calls (snd (retry_loop [0 ..< 3] batch key q0 st)) = api_calls st + n
     \<and> policy_shape batch n tr
     \<and> (\<forall>q. fst (retry_loop [0 ..< 3] batch key q0 st) = Inr q \<and> usable q = Inr False \<longrightarrow> n = 3)
     \<and> (n < 3 \<longrightarrow> (\<exists>q. fst (retry_loop [0 ..< 3] batch key q0 st) = Inr q \<and> usable q = Inr True)
                   \<or> (\<exists>e. fst (retry_loop [0 ..< 3] batch key q0 st) = Inl e))"
proof -
  obtain q1 s1 where a1: "attempt batch key st = (q1, s1)" by (cases "attempt batch key st")
  obtain tr1 where t1: "log s1 = log st @ tr1" "filter (\<lambda>e. \<not> fetcher_event e) tr1 = [Fetch batch]"
      "length (filter is_fetch tr1) = 1"
    using attempt_trace[of batch key st] a1 by auto
  have c1: "api_calls s1 = api_calls st + 1" using attempt_frame(3)[of batch key st] a1 by simp
  let ?b1 = "sleep Backoff (seconds 1) s1"
  obtain q2 s2 where a2: "attempt batch key ?b1 = (q2, s2)" by (cases "attempt batch key ?b1")
  obtain tr2 where t2: "log s2 = log ?b1 @ tr2" "filter (\<lambda>e. \<not> fetcher_event e) tr2 = [Fetch batch]"
      "length (filter is_fetch tr2) = 1"
    using attempt_trace[of batch key ?b1] a2 by auto
  have c2: "api_calls s2 = api_calls st + 2" using attempt_frame(3)[of batch key ?b1] a2 c1 by simp
  let ?b2 = "sleep Backoff (seconds 2) s2"
  obtain q3 s3 where a3: "attempt batch key ?b2 = (q3, s3)" by (cases "attempt batch key ?b2")
  obtain tr3 where t3: "log s3 = log ?b2 @ tr3" "filter (\<lambda>e. \<not> fetcher_event e) tr3 = [Fetch batch]"
      "length (filter is_fetch tr3) = 1"
    using attempt_trace[of batch key ?b2] a3 by auto
  have c3: "api_calls s3 = api_calls st + 3" using attempt_frame(3)[of batch key ?b2] a3 c2 by simp
  have l2: "log s2 = log st @ (tr1 @ Backoff (seconds 1) # tr2)" using t1 t2 by simp
  have l3: "log s3 = log st @ (tr1 @ Backoff (seconds 1) # tr2 @ Backoff (seconds 2) # tr3)"
    using l2 t3 by simp
  have p1: "policy_shape batch 1 tr1" using t1 by (simp add: policy_shape_def)
  have p2: "policy_shape batch 2 (tr1 @ Backoff (seconds 1) # tr2)"
    using t1 t2 by (simp add: policy_shape_def)
  have p3: "policy_shape batch 3 (tr1 @ Backoff (seconds 1) # tr2 @ Backoff (seconds 2) # tr3)"
    using t1 t2 t3 by (simp add: policy_shape_def)
  consider (stop1) "usable q1 \<noteq> Inr False"
    | (stop2) "usable q1 = Inr False" "usable q2 \<noteq> Inr False"
    | (stop3) "usable q1 = Inr False" "usable q2 = Inr False"
    by blast
  then show ?thesis
  proof cases
    case stop1
    then have "retry_loop [0 ..< 3] batch key q0 st
        = ((case usable q1 of Inl e \<Rightarrow> Inl e | Inr ok \<Rightarrow> Inr q1), s1)"
      by (auto simp: retry_loop_unrolled a1 split: sum.splits)
    then show ?thesis
      using stop1 t1(1) c1 p1
      by (intro exI[of _ tr1] exI[of _ 1]) (auto split: sum.splits)
  next
    case stop2
    then have "retry_loop [0 ..< 3] batch key q0 st
        = ((case usable q2 of Inl e \<Rightarrow> Inl e | Inr ok \<Rightarrow> Inr q2), s2)"
      by (auto simp del: One_nat_def simp: retry_loop_unrolled a1 a2 split: sum.splits)
    then show ?thesis
      using stop2 l2 c2 p2
      by (intro exI[of _ "tr1 @ Backoff (seconds 1) # tr2"] exI[of _ 2]) (auto split: sum.splits)
  next
    case stop3
    then have "retry_loop [0 ..< 3] batch key q0 st
        = ((case usable q3 of Inl e \<Rightarrow> Inl e | Inr ok \<Rightarrow> Inr q3), s3)"
      by (auto simp del: One_nat_def simp: retry_loop_unrolled a1 a2 a3 split: sum.splits)
    then show ?thesis
      using stop3 l3 c3 p3
      by (intro exI[of _ "tr1 @ Backoff (seconds 1) # tr2 @ Backoff (seconds 2) # tr3"] exI[of _ 3])
         (auto split: sum.splits)
  qed
qed














section \<open>The retry loop\<close>

text \<open>
  Claim C5. The retry loop of a batch is at most three attempts: it stops at the first
  attempt whose result is usable (or whose test raises), sleeps one second after a first
  unusable attempt and two seconds after a second one, and does not sleep after the third.
  Every attempt adds one to the call counter, whatever it returns. In the trace of the
  loop, with the events of the fetcher left out, the \<open>n\<close> calls are separated by exactly
  these back-offs, \<open>n\<close> is the increase of the counter, the loop gives up only after three
  attempts, and it ends earlier only on a usable result or an exception.
\<close>

theorem retry_policy:
  "retry_loop [0 ..< 3] batch key q0 st =
     (case attempt batch key st of (q1, s1) \<Rightarrow>
       (case usable q1 of Inl e \<Rightarrow> (Inl e, s1) | Inr ok1 \<Rightarrow>
          if ok1 then (Inr q1, s1) else
     (case attempt batch key (sleep Backoff (seconds 1) s1) of (q2, s2) \<Rightarrow>
       (case usable q2 of Inl e \<Rightarrow> (Inl e, s2) | Inr ok2 \<Rightarrow>
          if ok2 then (Inr q2, s2) else
     (case attempt batch key (sleep Backoff (seconds 2) s2) of (q3, s3) \<Rightarrow>
       (case usable q3 of Inl e \<Rightarrow> (Inl e, s3) | Inr ok3 \<Rightarrow> (Inr q3, s3)))))))
   \<and> api_calls (snd (attempt batch key st)) = api_calls st + 1
   \<and> (\<exists>tr n. log (snd (retry_loop [0 ..< 3] batch key q0 st)) = log st @ tr
        \<and> api_calls (snd (retry_loop [0 ..< 3] batch key q0 st)) = api_calls st + n
        \<and> length (filter is_fetch tr) = n
        \<and> ((n = 1 \<and> filter (\<lambda>e. \<not> fetcher_event e) tr = [Fetch batch])
           \<or> (n = 2 \<and> filter (\<lambda>e. \<not> fetcher_event e) tr
                  = [Fetch batch, Backoff (seconds 1), Fetch batch])
           \<or> (n = 3 \<and> filter (\<lambda>e. \<not> fetcher_event e) tr
                  = [Fetch batch, Backoff (seconds 1), Fetch batch, Backoff (seconds 2),
                     Fetch batch]))
        \<and> (\<forall>q. fst (retry_loop [0 ..< 3] batch key q0 st) = Inr q \<and> usable q = Inr False
               \<longrightarrow> n = 3)
        \<and> (n < 3 \<longrightarrow>
              (\<exists>q. fst (retry_loop [0 ..< 3] batch key q0 st) = Inr q \<and> usable q = Inr True)
              \<or> (\<exists>e. fst (retry_loop [0 ..< 3] batch key q0 st) = Inl e)))"
  using retry_loop_unrolled[of batch key q0 st] attempt_frame(3)[of batch key st]
    retry_loop_trace[of batch key q0 st]
  unfolding policy_shape_def by blast

theorem retry_policy_witness:
  "fst (retry_loop [0 ..< 3] [''BTC''] ''key'' JNull (init_state flaky empty_cache))
     = Inr (listing [(''BTC'', quoted 100)])
   \<and> usable (listing [(''BTC'', quoted 100)]) = Inr True
   \<and> log (snd (retry_loop [0 ..< 3] [''BTC''] ''key'' JNull (init_state flaky empty_cache)))
     = [Fetch [''BTC''], Request [''BTC''], Backoff (seconds 1),
        Fetch [''BTC''], Request [''BTC''], Backoff (seconds 2),
        Fetch [''BTC''], Request [''BTC'']]
   \<and> api_calls (snd (retry_loop [0 ..< 3] [''BTC''] ''key'' JNull (init_state flaky empty_cache))) = 3
   \<and> fst (retry_loop [0 ..< 3] [''BTC''] ''key'' JNull (init_state service_down empty_cache))
     = Inr JNull
   \<and> usable JNull = Inr False
   \<and> api_calls (snd (retry_loop [0 ..< 3] [''BTC''] ''key'' JNull
        (init_state service_down empty_cache))) = 3
   \<and> api_calls (snd (retry_loop [0 ..< 3] [''BTC''] ''key'' JNull
        (init_state service_up empty_cache))) < 3
   \<and> fst (retry_loop [0 ..< 3] [''BTC''] ''key'' JNull (init_state service_up empty_cache))
     = Inr (listing [(''BTC'', quoted 100), (''ETH'', quoted 3)])"
proof -
  have f: "fst (retry_loop [0 ..< 3] [''BTC''] ''key'' JNull (init_state flaky empty_cache))
      = Inr (listing [(''BTC'', quoted 100)])"
    "usable (listing [(''BTC'', quoted 100)]) = Inr True"
    "log (snd (retry_loop [0 ..< 3] [''BTC''] ''key'' JNull (init_state flaky empty_cache)))
     = [Fetch [''BTC''], Request [''BTC''], Backoff (seconds 1),
        Fetch [''BTC''], Request [''BTC''], Backoff (seconds 2),
        Fetch [''BTC''], Request [''BTC'']]"
    "api_calls (snd (retry_loop [0 ..< 3] [''BTC''] ''key'' JNull (init_state flaky empty_cache))) = 3"
    by code_simp+
  have d: "fst (retry_loop [0 ..< 3] [''BTC''] ''key'' JNull (init_state service_down empty_cache))
      = Inr JNull" "usable JNull = Inr False"
    by code_simp+
  have u: "api_calls (snd (retry_loop [0 ..< 3] [''BTC''] ''key'' JNull
        (init_state service_up empty_cache))) < 3"
    "fst (retry_loop [0 ..< 3] [''BTC''] ''key'' JNull (init_state service_up empty_cache))
     = Inr (listing [(''BTC'', quoted 100), (''ETH'', quoted 3)])"
    by code_simp+
  have z: "api_calls (init_state service_down empty_cache) = 0"
    by (simp add: init_state_def)
  have "api_calls (snd (retry_loop [0 ..< 3] [''BTC''] ''key'' JNull
        (init_state service_down empty_cache))) = 3"
    using retry_policy [of "[''BTC'']" "''key''" JNull "init_state service_down empty_cache"] d z
    by auto
  then show ?thesis using f d u by simp
qed

section \<open>A batch that exhausts its attempts\<close>

text \<open>
  Claim C1 fails on the code. With a service that never answers, the batch
  \<^verbatim>\<open>["AAA", "BBB"]\<close> is attempted three times and given up; the run goes on and ends, and
  the two symbols get no score. But the failed list is empty at the end: the branch that
  gives a batch up leaves the loop body with \<^verbatim>\<open>continue\<close> and records no symbol.
\<close>

theorem exhausted_batch_not_recorded:
  "\<not> isl (run_tickers [''AAA'', ''BBB''] service_down)
   \<and> log (projr (run_tickers [''AAA'', ''BBB''] service_down))
     = [Fetch [''AAA'', ''BBB''], Request [''AAA'', ''BBB''], Backoff (seconds 1),
        Fetch [''AAA'', ''BBB''], Request [''AAA'', ''BBB''], Backoff (seconds 2),
        Fetch [''AAA'', ''BBB''], Request [''AAA'', ''BBB''], GaveUp [''AAA'', ''BBB'']]
   \<and> api_calls (projr (run_tickers [''AAA'', ''BBB''] service_down)) = 3
   \<and> failed_tokens (projr (run_tickers [''AAA'', ''BBB''] service_down)) = []
   \<and> results (projr (run_tickers [''AAA'', ''BBB''] service_down)) ''AAA'' = None
   \<and> results (projr (run_tickers [''AAA'', ''BBB''] service_down)) ''BBB'' = None"
  by code_simp

text \<open>
  Claim C8 fails on the code. With 101 symbols and a service that fails three times and
  then answers, the first batch of 100 is given up and the call for the second batch
  follows at once: the only pause of 100 ms in the trace is the one after the second
  batch, which succeeded. The \<^verbatim>\<open>continue\<close> of the give-up branch skips the
  \<^verbatim>\<open>asyncio.sleep(0.1)\<close> at the end of the loop body.
\<close>

theorem no_pause_after_failed_batch:
  "\<not> isl (run_tickers (replicate 100 ''A'' @ [''BTC'']) down_then_up)
   \<and> log (projr (run_tickers (replicate 100 ''A'' @ [''BTC'']) down_then_up))
     = [Fetch (replicate 100 ''A''), Request (replicate 100 ''A''), Backoff (seconds 1),
        Fetch (replicate 100 ''A''), Request (replicate 100 ''A''), Backoff (seconds 2),
        Fetch (replicate 100 ''A''), Request (replicate 100 ''A''), GaveUp (replicate 100 ''A''),
        Fetch [''BTC''], Request [''BTC''], Pacing (seconds 1 div 10)]"
  by code_simp

section \<open>What the run raises\<close>

text \<open>
  Claim C7 fails on the code. The credential is set, and the cache file holds the number 7
  for the key \<^verbatim>\<open>BTC\<close>, stamped a minute ago. The fetch returns the cached 7, which is
  truthy, and the test \<^verbatim>\<open>'data' in quote_data\<close> of the retry loop raises \<^verbatim>\<open>TypeError\<close>
  outside every \<^verbatim>\<open>try\<close>: \<^verbatim>\<open>process_all_tickers\<close> raises, after one call of the fetcher and
  without any request.
\<close>

theorem raises_with_credential:
  "api_key_env poisoned_cache = Some ''key''
   \<and> isl (process_all_tickers [''btc''] poisoned_cache)
   \<and> projl (process_all_tickers [''btc''] poisoned_cache) = TypeError
   \<and> projl (run_tickers [''btc''] poisoned_cache)
     = (TypeError, poisoned_cache\<lparr>log := [Fetch [''BTC'']]\<rparr>)"
  by code_simp

text \<open>
  The rest of the claim holds. Without a credential (none, or an empty one) the run raises
  \<^verbatim>\<open>ValueError\<close> at once, with the world untouched: no cache is loaded and no request is
  made. With a credential, and a cache in which every value under \<^verbatim>\<open>quotes\<close> is a
  dictionary or falsy (the empty cache of a load failure is one, and \<^verbatim>\<open>set\<close> keeps it so,
  since only accepted responses are stored), the run returns whatever the service does.
\<close>

lemma usable_dict: "is_dict data \<Longrightarrow> \<not> isl (usable data)"
  by (cases data) (auto simp: usable_def)

lemma usable_falsy: "\<not> truthy data \<Longrightarrow> \<not> isl (usable data)"
  by (simp add: usable_def)

lemma accepted_dict: "accepted status data = Inr True \<Longrightarrow> is_dict data"
  by (cases data) (auto simp: accepted_def split: if_splits)

lemma clean_entries_lookup:
  "clean_entries (JObj es) \<Longrightarrow> is_dict (field_or es k JNull) \<or> \<not> truthy (field_or es k JNull)"
  by (auto simp: field_or_def list_all_iff split: option.splits dest!: map_of_SomeD)

lemma clean_cache_get: "clean c \<Longrightarrow> \<not> isl (usable (cache_get now k ''quotes'' c))"
proof -
  assume c: "clean c"
  have "is_dict (cache_get now k ''quotes'' c) \<or> \<not> truthy (cache_get now k ''quotes'' c)"
  proof (cases "py_getitem c ''quotes''")
    case (Inl e)
    then show ?thesis by (simp add: cache_get_def)
  next
    case (Inr x)
    then have ce: "clean_entries x" using c by (simp add: clean_def)
    show ?thesis
    proof (cases x)
      case (JObj es)
      then show ?thesis using ce clean_entries_lookup[of es k] Inr by (simp add: cache_get_def)
    qed (simp_all add: cache_get_def Inr)
  qed
  then show ?thesis using usable_dict usable_falsy by blast
qed

lemma clean_entries_update:
  "clean_entries (JObj es) \<Longrightarrow> is_dict v \<Longrightarrow> clean_entries (JObj (AList.update k v es))"
  by (induction es) (auto)

lemma stamp_key_other:
  assumes "t \<noteq> ''timestamp''"
  shows "py_getitem (stamp_key now k c) t = py_getitem c t"
proof (cases c)
  case (JObj m)
  show ?thesis
  proof (cases "map_of m ''timestamp''")
    case None
    then show ?thesis using assms by (simp add: stamp_key_def JObj update_conv')
  next
    case (Some stamps)
    then show ?thesis using assms
      by (cases stamps) (simp_all add: stamp_key_def JObj update_conv')
  qed
qed (simp_all add: stamp_key_def)

lemma clean_cache_set:
  assumes "clean c" "is_dict v"
  shows "clean (cache_set now k ''quotes'' v c)"
proof (cases c)
  case (JObj m)
  have q: "''quotes'' \<noteq> ''timestamp''" by simp
  show ?thesis
  proof (cases "map_of m ''quotes''")
    case None
    have "clean_entries (JObj (AList.update k v []))" using assms(2) by simp
    then show ?thesis
      using None by (simp add: cache_set_def JObj clean_def stamp_key_other[OF q] update_conv')
  next
    case (Some x)
    show ?thesis
    proof (cases x)
      case es: (JObj es)
      then have "clean_entries (JObj es)" using assms(1) Some by (simp add: clean_def JObj)
      then have "clean_entries (JObj (AList.update k v es))"
        using assms(2) by (rule clean_entries_update)
      then show ?thesis
        using Some es by (simp add: cache_set_def JObj clean_def stamp_key_other[OF q] update_conv')
    qed (use assms(1) Some in \<open>simp_all add: cache_set_def JObj clean_def\<close>)
  qed
qed (use assms(1) in \<open>simp_all add: cache_set_def\<close>)

lemma clean_empty: "clean empty_cache"
  by (simp add: clean_def empty_cache_def)

lemma request_quotes_clean:
  assumes "clean (cache st)"
  shows "\<not> isl (usable (fst (request_quotes ck b st)))"
    and "clean (cache (snd (request_quotes ck b st)))"
  using assms clean_cache_set[of "cache st" _ _ ck] accepted_dict usable_dict
    usable_falsy[of JNull]
  by (auto simp: request_quotes_def sleep_def elapse_def Let_def
      split: list.splits reply.splits option.splits sum.splits)

lemma get_batch_quotes_clean:
  assumes "clean (cache st)"
  shows "\<not> isl (usable (fst (get_batch_quotes b key st)))"
    and "clean (cache (snd (get_batch_quotes b key st)))"
  using assms request_quotes_clean[OF assms] clean_cache_get[OF assms]
  by (simp_all add: get_batch_quotes_def Let_def)

lemma attempt_clean:
  assumes "clean (cache st)"
  shows "\<not> isl (usable (fst (attempt b key st)))"
    and "clean (cache (snd (attempt b key st)))"
  using get_batch_quotes_clean[of "st\<lparr>log := log st @ [Fetch b]\<rparr>" b key] assms
  by (auto simp: attempt_def split: prod.splits)

lemma retry_loop_clean:
  assumes "clean (cache st)" "rs \<noteq> [] \<or> \<not> isl (usable q0)"
  shows "(\<exists>q. fst (retry_loop rs b key q0 st) = Inr q \<and> \<not> isl (usable q))
       \<and> clean (cache (snd (retry_loop rs b key q0 st)))"
  using assms
proof (induction rs arbitrary: q0 st)
  case Nil
  then show ?case by simp
next
  case (Cons r rs)
  obtain q1 s1 where a: "attempt b key st = (q1, s1)" by (cases "attempt b key st")
  have u: "\<not> isl (usable q1)" and c: "clean (cache s1)"
    using attempt_clean[OF Cons.prems(1), of b key] a by simp_all
  have c': "clean (cache (sleep Backoff d s1))" for d using c by (simp add: sleep_def)
  obtain ok where ok: "usable q1 = Inr ok" using u by (cases "usable q1") auto
  show ?case
    using Cons.IH[of s1 q1] Cons.IH[of "sleep Backoff (seconds (2 ^ r)) s1" q1] u c c' ok
    by (simp add: a)
qed

lemma process_batch_clean:
  assumes "clean (cache st)"
  shows "fst (process_batch key b st) = None \<and> clean (cache (snd (process_batch key b st)))"
proof -
  obtain q s1 where r: "retry_loop [0 ..< 3] b key JNull st = (Inr q, s1)"
    and u: "\<not> isl (usable q)" and c: "clean (cache s1)"
    using retry_loop_clean[OF assms, of "[0 ..< 3]" JNull b key]
    by (cases "retry_loop [0 ..< 3] b key JNull st") auto
  obtain ok where ok: "usable q = Inr ok" using u by (cases "usable q") auto
  show ?thesis
    using c by (simp add: process_batch_def r ok sleep_def fold_process_world)
qed

lemma process_batches_clean:
  "clean (cache st) \<Longrightarrow> fst (process_batches key bs st) = None"
proof (induction bs arbitrary: st)
  case Nil
  then show ?case by simp
next
  case (Cons b bs)
  obtain s1 where p: "process_batch key b st = (None, s1)" and c: "clean (cache s1)"
    using process_batch_clean[OF Cons.prems, of key b] by (cases "process_batch key b st") auto
  show ?case using Cons.IH[OF c] by (simp add: p)
qed

lemma run_raises_without_credential:
  "api_key_env w = None \<or> api_key_env w = Some [] \<Longrightarrow> run_tickers tickers w = Inl (ValueError, w)"
  by (auto simp: run_tickers_def)

lemma run_returns_with_clean_cache:
  assumes "api_key_env w = Some key" "key \<noteq> []" "load_cache (cache_file w) = Inr c" "clean c"
  shows "\<exists>st. run_tickers tickers w = Inr st"
proof -
  have "clean (cache (init_state w c))" using assms(4) by (simp add: init_state_def)
  then have "fst (process_batches key (batches (map upper tickers)) (init_state w c)) = None"
    by (rule process_batches_clean)
  then show ?thesis
    using assms(1-3)
    by (cases "process_batches key (batches (map upper tickers)) (init_state w c)")
       (simp add: run_tickers_def)
qed

section \<open>Scores and failures at the end of the run\<close>





end
